theory Spec2Isabelle
  imports Complex_Main
begin

section \<open>Values of the Cairo VM and of Python\<close>

text \<open>
  A memory address of the VM is a \<^verbatim>\<open>RelocatableValue(segment_index, offset)\<close>; a machine
  word (\<^verbatim>\<open>MaybeRelocatable\<close>) is a Python int or such an address.
\<close>

datatype relocatable = RelocatableValue (segment_index: nat) (offset: int)

datatype maybe_relocatable = IntV int | RelV relocatable

text \<open>\<^verbatim>\<open>RelocatableValue.__add__\<close> with an int on the right: the offset moves.\<close>

fun reloc_add :: "relocatable \<Rightarrow> int \<Rightarrow> relocatable" where
  "reloc_add (RelocatableValue s off) n = RelocatableValue s (off + n)"

text \<open>
  The Python values \<^verbatim>\<open>program_input\<close> ranges over (floats and user classes are left
  out), and Python's truth test on them, which \<^verbatim>\<open>or\<close> consults.
\<close>

datatype pyval =
    PyNone
  | PyBool bool
  | PyInt int
  | PyStr string
  | PyList "pyval list"
  | PyDict "(pyval \<times> pyval) list"

fun truthy :: "pyval \<Rightarrow> bool" where
  "truthy PyNone = False"
| "truthy (PyBool b) = b"
| "truthy (PyInt n) = (n \<noteq> 0)"
| "truthy (PyStr s) = (s \<noteq> [])"
| "truthy (PyList xs) = (xs \<noteq> [])"
| "truthy (PyDict kvs) = (kvs \<noteq> [])"

text \<open>\<^verbatim>\<open>a or b\<close>: the first operand when it is truthy, the second otherwise.\<close>

definition py_or :: "pyval \<Rightarrow> pyval \<Rightarrow> pyval" where
  "py_or a b = (if truthy a then a else b)"

datatype error =
    AssertionError string
  | MissingIdentifierError "string list"
  | TypeError
  | AttributeError
  | InconsistentMemoryError
  | VmException string
  | FinalizationError string
  | ValueError string

section \<open>The program, the runner and the virtual machine\<close>

text \<open>
  The Program as the harness reads it: the declared builtin names, in order, and the
  identifier table from scoped names (a path of names) to code addresses.
\<close>

record program =
  builtins :: "string list"
  identifiers :: "string list \<rightharpoonup> int"

text \<open>A builtin runner, seen through \<^verbatim>\<open>initial_stack()\<close>: the words it contributes.\<close>

record builtin_runner =
  initial_stack :: "maybe_relocatable list"

type_synonym memory_dict = "relocatable \<rightharpoonup> maybe_relocatable"

text \<open>
  \<^verbatim>\<open>runner.vm\<close>: the registers of \<^verbatim>\<open>run_context\<close>, the step counter and the
  names bound for the hints.
\<close>

record virtual_machine =
  pc :: maybe_relocatable
  ap :: relocatable
  fp :: relocatable
  current_step :: nat
  hint_locals :: "string \<rightharpoonup> pyval"

text \<open>
  The \<^verbatim>\<open>CairoRunner\<close> object: the constructor's arguments and the attributes
  \<^verbatim>\<open>run_program_entrypoint\<close> reads or writes. An attribute that is not set yet is
  \<open>None\<close>; \<open>segments\<close> is the number of segments allocated so far.
\<close>

record cairo_runner =
  program :: program
  layout :: string
  memory :: memory_dict
  proof_mode :: bool
  allow_missing_builtins :: bool
  builtin_runners :: "string \<rightharpoonup> builtin_runner"
  segments :: nat
  execution_base :: "relocatable option"
  initial_pc :: "maybe_relocatable option"
  initial_fp :: "relocatable option"
  initial_ap :: "relocatable option"
  final_pc :: "relocatable option"
  vm :: "virtual_machine option"
  original_steps :: "nat option"
  run_ended :: bool

text \<open>
  The parts of the VM runtime that stay opaque to the harness: which builtin runners
  a layout instantiates for a program, one step of the machine (instruction and hints),
  the trace length that padding asks for, and the rendering of the output.
\<close>

record vm_runtime =
  layout_builtin_runners :: "string \<Rightarrow> program \<Rightarrow> (string \<rightharpoonup> builtin_runner)"
  vm_step :: "cairo_runner \<Rightarrow> error + cairo_runner"
  trace_padding :: "cairo_runner \<Rightarrow> error + nat"
  render_output :: "cairo_runner \<Rightarrow> string"

section \<open>The operations of the VM runtime\<close>

text \<open>
  Modelled from the spec: the \<^verbatim>\<open>CairoRunner\<close> constructor of the VM library, which
  is not part of the repository. A fresh runner holds the program and the options it was
  given, the memory it was given, no segment, no register and no VM.
\<close>

definition CairoRunner ::
  "vm_runtime \<Rightarrow> program \<Rightarrow> string \<Rightarrow> memory_dict \<Rightarrow> bool \<Rightarrow> bool \<Rightarrow> cairo_runner" where
  "CairoRunner rt prog lay mem pm amb =
     \<lparr> program = prog, layout = lay, memory = mem, proof_mode = pm,
       allow_missing_builtins = amb,
       builtin_runners = layout_builtin_runners rt lay prog,
       segments = 0, execution_base = None, initial_pc = None, initial_fp = None,
       initial_ap = None, final_pc = None, vm = None, original_steps = None,
       run_ended = False \<rparr>"

text \<open>
  Modelled from the spec: \<^verbatim>\<open>segments.add()\<close> of the VM library
  (\<^verbatim>\<open>allocate_segment() -> SegmentId\<close>, "reserve a fresh memory region"): the next
  unused segment, addressed at its offset 0; nothing is written.
\<close>

definition segments_add :: "cairo_runner \<Rightarrow> relocatable \<times> cairo_runner" where
  "segments_add r = (RelocatableValue (segments r) 0, r\<lparr>segments := Suc (segments r)\<rparr>)"

text \<open>
  Modelled from the spec: \<^verbatim>\<open>initialize_segments()\<close> of the VM library ("allocates
  one fresh memory segment to serve as the execution segment; this segment's base
  address is recorded for later use and is otherwise untouched").
\<close>

definition initialize_segments :: "cairo_runner \<Rightarrow> cairo_runner" where
  "initialize_segments r =
     (let (base, r') = segments_add r in r'\<lparr>execution_base := Some base\<rparr>)"

text \<open>
  Modelled from the spec: \<^verbatim>\<open>identifiers.get_by_full_name\<close> followed by \<^verbatim>\<open>.pc\<close>
  (\<^verbatim>\<open>resolve_identifier(qualified_name) -> address\<close>, "fails with not found if
  absent").
\<close>

definition get_by_full_name :: "(string list \<rightharpoonup> int) \<Rightarrow> string list \<Rightarrow> error + int" where
  "get_by_full_name ids name =
     (case ids name of None \<Rightarrow> Inl (MissingIdentifierError name) | Some a \<Rightarrow> Inr a)"

text \<open>
  Modelled from the spec: the memory of the VM library is "sparse, write-once-per-cell":
  writing a cell again is accepted only with the value it holds. \<open>load_data\<close> writes
  a sequence of words at consecutive addresses.
\<close>

fun load_data ::
  "memory_dict \<Rightarrow> relocatable \<Rightarrow> maybe_relocatable list \<Rightarrow> error + memory_dict" where
  "load_data m p [] = Inr m"
| "load_data m p (v # vs) =
     (case m p of
        None \<Rightarrow> load_data (m(p \<mapsto> v)) (reloc_add p 1) vs
      | Some w \<Rightarrow>
          if w = v then load_data m (reloc_add p 1) vs else Inl InconsistentMemoryError)"

text \<open>
  Modelled from the spec: \<^verbatim>\<open>initialize_state(entrypoint, stack)\<close> of the VM library
  ("initial program counter = resolved code address"; "write the Stack's words into the
  execution segment starting at its base").
\<close>

definition initialize_state ::
  "int \<Rightarrow> maybe_relocatable list \<Rightarrow> cairo_runner \<Rightarrow> error + cairo_runner" where
  "initialize_state entrypoint stack r =
     (case execution_base r of
        None \<Rightarrow> Inl TypeError
      | Some base \<Rightarrow>
          (case load_data (memory r) base stack of
             Inl e \<Rightarrow> Inl e
           | Inr m \<Rightarrow> Inr (r\<lparr>initial_pc := Some (IntV entrypoint), memory := m\<rparr>)))"

text \<open>
  Modelled from the spec: \<^verbatim>\<open>initialize_vm(hint_locals)\<close> of the VM library ("write
  the InitialRegisters into the VM's register/state area"; the named input is bound into
  the hint-evaluation context). The VM starts at step 0.
\<close>

definition initialize_vm :: "(string \<rightharpoonup> pyval) \<Rightarrow> cairo_runner \<Rightarrow> error + cairo_runner" where
  "initialize_vm hl r =
     (case (initial_pc r, initial_ap r, initial_fp r) of
        (Some p, Some a, Some f) \<Rightarrow>
          Inr (r\<lparr>vm := Some \<lparr> pc = p, ap = a, fp = f, current_step = 0, hint_locals = hl \<rparr>\<rparr>)
      | _ \<Rightarrow> Inl TypeError)"

text \<open>
  Modelled from the spec: \<^verbatim>\<open>run_until_pc(addr)\<close> of the VM library ("drive execution
  by single-stepping the VM until its program counter equals the end sentinel's
  address"; a fault in a step abandons the run). The loop need not end, so it is a
  relation between the runner before and the outcome: the runner when the program
  counter is \<open>addr\<close>, or the fault and the runner it happened in.
\<close>

type_synonym failure = "error \<times> cairo_runner"

inductive run_until_pc ::
  "vm_runtime \<Rightarrow> maybe_relocatable \<Rightarrow> cairo_runner \<Rightarrow> failure + cairo_runner \<Rightarrow> bool"
  for rt :: vm_runtime and addr :: maybe_relocatable where
  no_vm: "vm r = None \<Longrightarrow> run_until_pc rt addr r (Inl (AttributeError, r))"
| reached: "vm r = Some v \<Longrightarrow> pc v = addr \<Longrightarrow> run_until_pc rt addr r (Inr r)"
| fault: "vm r = Some v \<Longrightarrow> pc v \<noteq> addr \<Longrightarrow> vm_step rt r = Inl e \<Longrightarrow>
          run_until_pc rt addr r (Inl (e, r))"
| step: "vm r = Some v \<Longrightarrow> pc v \<noteq> addr \<Longrightarrow> vm_step rt r = Inr r' \<Longrightarrow>
         run_until_pc rt addr r' res \<Longrightarrow> run_until_pc rt addr r res"

code_pred run_until_pc .

text \<open>
  Modelled from the spec: \<^verbatim>\<open>end_run(disable_trace_padding)\<close> of the VM library
  ("decide whether to pad the execution trace to a builtin-required boundary length;
  this is configurable and, when disabled, is skipped entirely"; "a failure in trace
  padding is reported as a fatal run failure"). Padding extends the recorded trace, that
  is the step count, to the length the runtime asks for.
\<close>

definition end_run :: "vm_runtime \<Rightarrow> bool \<Rightarrow> cairo_runner \<Rightarrow> error + cairo_runner" where
  "end_run rt disable_trace_padding r =
     (case vm r of
        None \<Rightarrow> Inl AttributeError
      | Some v \<Rightarrow>
          if disable_trace_padding then Inr (r\<lparr>run_ended := True\<rparr>)
          else (case trace_padding rt r of
                  Inl e \<Rightarrow> Inl e
                | Inr n \<Rightarrow> Inr (r\<lparr>vm := Some (v\<lparr>current_step := n\<rparr>), run_ended := True\<rparr>)))"

text \<open>
  Modelled from the spec: \<^verbatim>\<open>print_output()\<close> of the VM library ("make any
  program-declared output observable"): the text that is printed.
\<close>

definition print_output :: "vm_runtime \<Rightarrow> cairo_runner \<Rightarrow> string" where
  "print_output rt r = render_output rt r"

section \<open>The harness: \<^verbatim>\<open>run_program_entrypoint\<close>\<close>

text \<open>
  The body of the loop over \<^verbatim>\<open>runner.program.builtins\<close>, for one name: the runner
  registered under \<^verbatim>\<open>f"{builtin_name}_builtin"\<close> contributes its initial stack; where
  there is none, the assertion on \<^verbatim>\<open>allow_missing_builtins\<close> fails or the
  contribution is the one word 0.
\<close>

definition builtin_contribution ::
  "cairo_runner \<Rightarrow> string \<Rightarrow> error + maybe_relocatable list" where
  "builtin_contribution r builtin_name =
     (case builtin_runners r (builtin_name @ ''_builtin'') of
        None \<Rightarrow>
          if allow_missing_builtins r then Inr [IntV 0]
          else Inl (AssertionError ''Missing builtin.'')
      | Some br \<Rightarrow> Inr (initial_stack br))"

text \<open>The loop: \<^verbatim>\<open>stack += ...\<close> for each declared builtin, in order.\<close>

fun builtins_stack ::
  "cairo_runner \<Rightarrow> string list \<Rightarrow> maybe_relocatable list \<Rightarrow> error + maybe_relocatable list" where
  "builtins_stack r [] st = Inr st"
| "builtins_stack r (builtin_name # rest) st =
     (case builtin_contribution r builtin_name of
        Inl e \<Rightarrow> Inl e
      | Inr c \<Rightarrow> builtins_stack r rest (st @ c))"

text \<open>The local variables of \<^verbatim>\<open>run_program_entrypoint\<close> once the stack is built.\<close>

record frame =
  runner :: cairo_runner
  stack :: "maybe_relocatable list"
  return_fp :: relocatable
  end_ptr :: relocatable

text \<open>
  The statements up to \<^verbatim>\<open>stack = stack + [return_fp, end]\<close>: a fresh runner, its
  segments, the builtins' words, the two fresh cells. A failure carries the exception
  and the runner as it was when the exception was raised.
\<close>

definition build_frame :: "vm_runtime \<Rightarrow> program \<Rightarrow> failure + frame" where
  "build_frame rt prog =
     (let r0 = CairoRunner rt prog ''small'' Map.empty False False;
          r1 = initialize_segments r0
      in case builtins_stack r1 (builtins (program r1)) [] of
           Inl e \<Rightarrow> Inl (e, r1)
         | Inr st0 \<Rightarrow>
             (let (rfp, r2) = segments_add r1;
                  (en, r3) = segments_add r2
              in Inr \<lparr> runner = r3, stack = st0 @ [RelV rfp, RelV en], return_fp = rfp,
                       end_ptr = en \<rparr>))"

text \<open>
  The statements from \<^verbatim>\<open>initialize_state\<close> to \<^verbatim>\<open>initialize_vm\<close>. The arguments
  of \<^verbatim>\<open>initialize_state\<close> are evaluated before the call, so a name that does not
  resolve raises before anything is loaded. An omitted \<^verbatim>\<open>program_input\<close> is
  \<open>PyNone\<close>.
\<close>

definition initialize ::
  "program \<Rightarrow> string \<Rightarrow> pyval \<Rightarrow> frame \<Rightarrow> failure + frame" where
  "initialize prog entrypoint program_input f =
     (case get_by_full_name (identifiers prog) [''__main__'', entrypoint] of
        Inl e \<Rightarrow> Inl (e, runner f)
      | Inr a \<Rightarrow>
          (case initialize_state a (stack f) (runner f) of
             Inl e \<Rightarrow> Inl (e, runner f)
           | Inr r4 \<Rightarrow>
               (case execution_base r4 of
                  None \<Rightarrow> Inl (TypeError, r4)
                | Some base \<Rightarrow>
                    (let p = reloc_add base (int (length (stack f)));
                         r5 = r4\<lparr>initial_fp := Some p, initial_ap := Some p\<rparr>;
                         r6 = r5\<lparr>final_pc := Some (end_ptr f)\<rparr>
                     in case initialize_vm
                               [''program_input'' \<mapsto> py_or program_input (PyDict [])] r6 of
                          Inl e \<Rightarrow> Inl (e, r6)
                        | Inr r7 \<Rightarrow> Inr (f\<lparr>runner := r7\<rparr>)))))"

text \<open>Everything before \<^verbatim>\<open>run_until_pc\<close>.\<close>

definition prepare :: "vm_runtime \<Rightarrow> program \<Rightarrow> string \<Rightarrow> pyval \<Rightarrow> failure + frame" where
  "prepare rt prog entrypoint program_input =
     (case build_frame rt prog of
        Inl x \<Rightarrow> Inl x
      | Inr f \<Rightarrow> initialize prog entrypoint program_input f)"

text \<open>
  The statements after \<^verbatim>\<open>run_until_pc\<close>: the step count is stored, then
  \<^verbatim>\<open>end_run(disable_trace_padding=False)\<close>, then the output is printed.
\<close>

definition finish :: "vm_runtime \<Rightarrow> frame \<Rightarrow> failure + frame \<times> string" where
  "finish rt f =
     (case vm (runner f) of
        None \<Rightarrow> Inl (AttributeError, runner f)
      | Some v \<Rightarrow>
          (let r1 = (runner f)\<lparr>original_steps := Some (current_step v)\<rparr>
           in case end_run rt False r1 of
                Inl e \<Rightarrow> Inl (e, r1)
              | Inr r2 \<Rightarrow> Inr (f\<lparr>runner := r2\<rparr>, print_output rt r2)))"

text \<open>
  The whole call: the outcome is the failure that was raised, or the local variables
  at the end together with the printed output.
\<close>

inductive run_program_entrypoint ::
  "vm_runtime \<Rightarrow> program \<Rightarrow> string \<Rightarrow> pyval \<Rightarrow> failure + frame \<times> string \<Rightarrow> bool"
  for rt :: vm_runtime and prog :: program and entrypoint :: string and program_input :: pyval
  where
  setup_failed: "prepare rt prog entrypoint program_input = Inl x \<Longrightarrow>
     run_program_entrypoint rt prog entrypoint program_input (Inl x)"
| run_failed: "prepare rt prog entrypoint program_input = Inr f \<Longrightarrow>
     run_until_pc rt (RelV (end_ptr f)) (runner f) (Inl x) \<Longrightarrow>
     run_program_entrypoint rt prog entrypoint program_input (Inl x)"
| run_done: "prepare rt prog entrypoint program_input = Inr f \<Longrightarrow>
     run_until_pc rt (RelV (end_ptr f)) (runner f) (Inr r) \<Longrightarrow>
     run_program_entrypoint rt prog entrypoint program_input (finish rt (f\<lparr>runner := r\<rparr>))"

code_pred run_program_entrypoint .

section \<open>The statistics script\<close>

text \<open>
  A row of the concatenated table: the branch it was measured on, the name of the test
  and the numeric columns of \<^verbatim>\<open>resources.csv\<close>. The measurements are Python floats;
  they are taken as real numbers here.
\<close>

record resource_row =
  head_branch :: string
  test :: string
  measures :: "real list"

text \<open>A \<^verbatim>\<open>resources.csv\<close> as read: per row, the test and its numeric columns.\<close>

type_synonym csv = "(string \<times> real list) list"

text \<open>\<^verbatim>\<open>pd.read_csv(...).assign(head_branch=b)\<close>: every row gets the branch \<open>b\<close>.\<close>

definition assign_head_branch :: "string \<Rightarrow> csv \<Rightarrow> resource_row list" where
  "assign_head_branch b rows =
     map (\<lambda>(t, ms). \<lparr> head_branch = b, test = t, measures = ms \<rparr>) rows"

text \<open>
  The list \<^verbatim>\<open>resources\<close>: one table per artifact (its branch and its file), then the
  local file under the name \<^verbatim>\<open>local\<close> when it exists.
\<close>

definition resources :: "(string \<times> csv) list \<Rightarrow> csv option \<Rightarrow> resource_row list list" where
  "resources artifacts local_csv =
     map (\<lambda>(b, c). assign_head_branch b c) artifacts
     @ (case local_csv of None \<Rightarrow> [] | Some c \<Rightarrow> [assign_head_branch ''local'' c])"

text \<open>The columns \<^verbatim>\<open>["head_branch", "test"]\<close> of a row.\<close>

definition row_key :: "resource_row \<Rightarrow> string \<times> string" where
  "row_key r = (head_branch r, test r)"

text \<open>
  \<^verbatim>\<open>DataFrame.drop_duplicates(subset, keep=False)\<close> of pandas, a library: with
  \<^verbatim>\<open>keep=False\<close> every row whose subset columns occur in another row is dropped, and
  the other rows stay in their order.
\<close>

definition drop_duplicates :: "resource_row list \<Rightarrow> resource_row list" where
  "drop_duplicates rows =
     filter (\<lambda>r. length (filter (\<lambda>r'. row_key r' = row_key r) rows) = 1) rows"

text \<open>\<^verbatim>\<open>all_resources\<close>: the tables concatenated, the duplicated rows dropped.\<close>

definition all_resources :: "(string \<times> csv) list \<Rightarrow> csv option \<Rightarrow> resource_row list" where
  "all_resources artifacts local_csv = drop_duplicates (concat (resources artifacts local_csv))"

text \<open>
  \<^verbatim>\<open>round(2)\<close> of pandas rounds to two decimals, a half to the even neighbour.
\<close>

definition round_half_even :: "real \<Rightarrow> int" where
  "round_half_even x =
     (let f = \<lfloor>x\<rfloor>; d = x - of_int f
      in if d < 1 / 2 then f else if 1 / 2 < d then f + 1 else if even f then f else f + 1)"

definition round2 :: "real \<Rightarrow> real" where
  "round2 x = of_int (round_half_even (x * 100)) / 100"

definition mean :: "real list \<Rightarrow> real" where
  "mean xs = sum_list xs / real (length xs)"

text \<open>
  \<^verbatim>\<open>groupby(level="head_branch").agg("mean").round(2)\<close>: for each branch that has a
  row, the rounded mean of every column over the rows of that branch.
\<close>

definition average_summary :: "resource_row list \<Rightarrow> string \<rightharpoonup> real list" where
  "average_summary rows b =
     (let grp = filter (\<lambda>r. head_branch r = b) rows
      in if grp = [] then None
         else Some (map (\<lambda>col. round2 (mean col)) (transpose (map measures grp))))"

text \<open>
  The table that \<^verbatim>\<open>main\<close> logs. \<^verbatim>\<open>pd.concat\<close> of an empty list raises
  \<^verbatim>\<open>ValueError\<close>.
\<close>

definition main_summary ::
  "(string \<times> csv) list \<Rightarrow> csv option \<Rightarrow> error + (string \<rightharpoonup> real list)" where
  "main_summary artifacts local_csv =
     (if resources artifacts local_csv = [] then Inl (ValueError ''No objects to concatenate'')
      else Inr (average_summary (all_resources artifacts local_csv)))"

section \<open>Worked examples\<close>



text \<open>
  A machine whose every step is Cairo's \<^verbatim>\<open>ret\<close>: the program counter becomes the word
  below the frame pointer, the frame pointer the word below that.
\<close>

definition ret_step :: "cairo_runner \<Rightarrow> error + cairo_runner" where
  "ret_step r =
     (case vm r of
        None \<Rightarrow> Inl AttributeError
      | Some v \<Rightarrow>
          (case (memory r (reloc_add (fp v) (- 1)), memory r (reloc_add (fp v) (- 2))) of
             (Some p, Some (RelV f)) \<Rightarrow>
               Inr (r\<lparr>vm := Some (v\<lparr>pc := p, fp := f, current_step := Suc (current_step v)\<rparr>)\<rparr>)
           | _ \<Rightarrow> Inl (VmException ''Unknown value for memory cell'')))"

text \<open>
  A runtime with one builtin runner, \<^verbatim>\<open>range_check\<close>, contributing the word 1000;
  padding asks for a trace of 16 steps; nothing is printed.
\<close>

definition example_runtime :: vm_runtime where
  "example_runtime =
     \<lparr> layout_builtin_runners =
         (\<lambda>lay prog. [''range_check_builtin'' \<mapsto> \<lparr> initial_stack = [IntV 1000] \<rparr>]),
       vm_step = ret_step,
       trace_padding = (\<lambda>r. Inr 16),
       render_output = (\<lambda>r. '''') \<rparr>"

text \<open>A program declaring \<^verbatim>\<open>range_check\<close>, with the entry point \<^verbatim>\<open>main\<close> at 0.\<close>

definition example_program :: program where
  "example_program =
     \<lparr> builtins = [''range_check''], identifiers = [[''__main__'', ''main''] \<mapsto> 0] \<rparr>"

text \<open>A program declaring a builtin the runtime has no runner for.\<close>

definition no_runner_program :: program where
  "no_runner_program = \<lparr> builtins = [''pedersen''], identifiers = Map.empty \<rparr>"

text \<open>The locals of the example call when the VM is initialised.\<close>

definition example_frame :: frame where
  "example_frame =
     \<lparr> runner =
         \<lparr> program = example_program, layout = ''small'',
           memory = [RelocatableValue 0 0 \<mapsto> IntV 1000,
                     RelocatableValue 0 1 \<mapsto> RelV (RelocatableValue 1 0),
                     RelocatableValue 0 2 \<mapsto> RelV (RelocatableValue 2 0)],
           proof_mode = False, allow_missing_builtins = False,
           builtin_runners = [''range_check_builtin'' \<mapsto> \<lparr> initial_stack = [IntV 1000] \<rparr>],
           segments = 3, execution_base = Some (RelocatableValue 0 0),
           initial_pc = Some (IntV 0), initial_fp = Some (RelocatableValue 0 3),
           initial_ap = Some (RelocatableValue 0 3),
           final_pc = Some (RelocatableValue 2 0),
           vm = Some \<lparr> pc = IntV 0, ap = RelocatableValue 0 3, fp = RelocatableValue 0 3,
                       current_step = 0,
                       hint_locals = [''program_input'' \<mapsto> PyDict []] \<rparr>,
           original_steps = None, run_ended = False \<rparr>,
       stack = [IntV 1000, RelV (RelocatableValue 1 0), RelV (RelocatableValue 2 0)],
       return_fp = RelocatableValue 1 0,
       end_ptr = RelocatableValue 2 0 \<rparr>"

text \<open>The same locals when the stack has just been built.\<close>

definition example_built :: frame where
  "example_built =
     example_frame
       \<lparr> runner :=
           \<lparr> program = example_program, layout = ''small'', memory = Map.empty,
             proof_mode = False, allow_missing_builtins = False,
             builtin_runners = [''range_check_builtin'' \<mapsto> \<lparr> initial_stack = [IntV 1000] \<rparr>],
             segments = 3, execution_base = Some (RelocatableValue 0 0),
             initial_pc = None, initial_fp = None, initial_ap = None, final_pc = None,
             vm = None, original_steps = None, run_ended = False \<rparr> \<rparr>"

text \<open>The runner after the one step that reaches the end sentinel.\<close>

definition example_reached :: cairo_runner where
  "example_reached =
     (runner example_frame)
       \<lparr> vm := Some \<lparr> pc = RelV (RelocatableValue 2 0), ap = RelocatableValue 0 3,
                      fp = RelocatableValue 1 0, current_step = 1,
                      hint_locals = [''program_input'' \<mapsto> PyDict []] \<rparr> \<rparr>"

text \<open>The locals when the example call returns.\<close>

definition example_final :: frame where
  "example_final =
     example_frame
       \<lparr> runner := example_reached
           \<lparr> original_steps := Some 1,
             vm := Some \<lparr> pc = RelV (RelocatableValue 2 0), ap = RelocatableValue 0 3,
                          fp = RelocatableValue 1 0, current_step = 16,
                          hint_locals = [''program_input'' \<mapsto> PyDict []] \<rparr>,
             run_ended := True \<rparr> \<rparr>"

text \<open>
  Measurements of two branches: \<^verbatim>\<open>test_a\<close> was recorded twice on \<^verbatim>\<open>main\<close>.
\<close>

definition example_artifacts :: "(string \<times> csv) list" where
  "example_artifacts =
     [(''main'', [(''test_a'', [10, 4]), (''test_a'', [30, 8]), (''test_b'', [5, 2])])]"

definition example_local :: "csv option" where
  "example_local = Some [(''test_a'', [7, 3]), (''test_b'', [8, 4])]"

section \<open>Facts about the runtime operations\<close>

lemma reloc_add_0 [simp]: "reloc_add p 0 = p"
  by (cases p) simp

lemma reloc_add_add: "reloc_add (reloc_add p a) b = reloc_add p (a + b)"
  by (cases p) simp

lemma reloc_add_neq: "n \<noteq> 0 \<Longrightarrow> reloc_add p n \<noteq> p"
  by (cases p) simp

text \<open>Loading into cells that are all empty cannot clash with the write-once rule.\<close>

lemma load_data_fresh:
  "(\<And>n. 0 \<le> n \<Longrightarrow> m (reloc_add p n) = None) \<Longrightarrow> \<exists>m'. load_data m p vs = Inr m'"
proof (induction vs arbitrary: m p)
  case Nil
  then show ?case by simp
next
  case (Cons v vs)
  have here: "m p = None" using Cons.prems [of 0] by simp
  have "\<exists>m'. load_data (m(p \<mapsto> v)) (reloc_add p 1) vs = Inr m'"
  proof (rule Cons.IH)
    fix n :: int
    assume "0 \<le> n"
    then have "reloc_add p (1 + n) \<noteq> p" "m (reloc_add p (1 + n)) = None"
      using reloc_add_neq [of "1 + n" p] Cons.prems [of "1 + n"] by simp_all
    then show "(m(p \<mapsto> v)) (reloc_add (reloc_add p 1) n) = None"
      by (simp add: reloc_add_add)
  qed
  with here show ?case by simp
qed

lemma fresh_runner_fields:
  "program (initialize_segments (CairoRunner rt prog lay mem pm amb)) = prog"
  "memory (initialize_segments (CairoRunner rt prog lay mem pm amb)) = mem"
  "allow_missing_builtins (initialize_segments (CairoRunner rt prog lay mem pm amb)) = amb"
  "builtin_runners (initialize_segments (CairoRunner rt prog lay mem pm amb)) =
     layout_builtin_runners rt lay prog"
  "segments (initialize_segments (CairoRunner rt prog lay mem pm amb)) = 1"
  "execution_base (initialize_segments (CairoRunner rt prog lay mem pm amb)) =
     Some (RelocatableValue 0 0)"
  "vm (initialize_segments (CairoRunner rt prog lay mem pm amb)) = None"
  "original_steps (initialize_segments (CairoRunner rt prog lay mem pm amb)) = None"
  by (simp_all add: initialize_segments_def CairoRunner_def segments_add_def)

text \<open>The loop stops at its exit only: a run that reaches an address has it as \<open>pc\<close>.\<close>

lemma run_until_pc_reached:
  "run_until_pc rt addr r res \<Longrightarrow> res = Inr r' \<Longrightarrow> \<exists>v. vm r' = Some v \<and> pc v = addr"
  by (induction rule: run_until_pc.induct) auto

section \<open>Facts about the harness\<close>

lemma builtins_stack_Inr:
  "builtins_stack r bs st = Inr st' \<Longrightarrow>
   \<exists>cs. map (builtin_contribution r) bs = map Inr cs \<and> st' = st @ concat cs"
proof (induction bs arbitrary: st)
  case Nil
  then show ?case by simp
next
  case (Cons b bs)
  from Cons.prems obtain c where c: "builtin_contribution r b = Inr c"
    and rest: "builtins_stack r bs (st @ c) = Inr st'"
    by (auto split: sum.splits)
  from Cons.IH [OF rest] obtain cs where
    cs: "map (builtin_contribution r) bs = map Inr cs" "st' = (st @ c) @ concat cs"
    by blast
  have "map (builtin_contribution r) (b # bs) = map Inr (c # cs) \<and> st' = st @ concat (c # cs)"
    using c cs by simp
  then show ?case by blast
qed

lemma builtins_stack_all_Inr:
  "map (builtin_contribution r) bs = map Inr cs \<Longrightarrow> builtins_stack r bs st = Inr (st @ concat cs)"
  by (induction bs arbitrary: st cs) auto

lemma builtin_contribution_error:
  "builtin_contribution r b = Inl e \<Longrightarrow> e = AssertionError ''Missing builtin.''"
  by (auto simp: builtin_contribution_def split: option.splits if_splits)

lemma builtins_stack_missing:
  "b \<in> set bs \<Longrightarrow> builtin_contribution r b = Inl e \<Longrightarrow>
   builtins_stack r bs st = Inl (AssertionError ''Missing builtin.'')"
proof (induction bs arbitrary: st)
  case Nil
  then show ?case by simp
next
  case (Cons a bs)
  show ?case
  proof (cases "builtin_contribution r a")
    case (Inl e')
    then show ?thesis using builtin_contribution_error [OF Inl] by simp
  next
    case (Inr c)
    with Cons.prems have "b \<in> set bs" by auto
    from Cons.IH [OF this Cons.prems(2)] Inr show ?thesis by simp
  qed
qed


lemma builtin_contribution_cong:
  "builtin_runners r = builtin_runners r' \<Longrightarrow>
   allow_missing_builtins r = allow_missing_builtins r' \<Longrightarrow>
   builtin_contribution r = builtin_contribution r'"
  by (rule ext) (simp add: builtin_contribution_def)

lemma build_frame_Inr:
  assumes "build_frame rt prog = Inr f"
  shows "\<exists>st0. builtins_stack (initialize_segments (CairoRunner rt prog ''small'' Map.empty False False))
                 (builtins prog) [] = Inr st0 \<and>
          stack f = st0 @ [RelV (return_fp f), RelV (end_ptr f)] \<and>
          return_fp f = RelocatableValue 1 0 \<and> end_ptr f = RelocatableValue 2 0 \<and>
          runner f = (initialize_segments (CairoRunner rt prog ''small'' Map.empty False False))
                       \<lparr>segments := 3\<rparr>"
  using assms
  by (auto simp: build_frame_def Let_def fresh_runner_fields segments_add_def
      split: sum.splits)

lemma build_frame_fresh:
  assumes "build_frame rt prog = Inr f"
  shows "memory (runner f) = Map.empty" "execution_base (runner f) = Some (RelocatableValue 0 0)"
    "vm (runner f) = None" "segments (runner f) = 3" "initial_pc (runner f) = None"
    "original_steps (runner f) = None"
  using build_frame_Inr [OF assms]
  by (auto simp: initialize_segments_def CairoRunner_def segments_add_def)


text \<open>The initialisation, one case per way it can end.\<close>

lemma initialize_cases:
  "initialize prog entrypoint program_input f0 =
     (case identifiers prog [''__main__'', entrypoint] of
        None \<Rightarrow> Inl (MissingIdentifierError [''__main__'', entrypoint], runner f0)
      | Some a \<Rightarrow>
          (case execution_base (runner f0) of
             None \<Rightarrow> Inl (TypeError, runner f0)
           | Some base \<Rightarrow>
               (case load_data (memory (runner f0)) base (stack f0) of
                  Inl e \<Rightarrow> Inl (e, runner f0)
                | Inr m \<Rightarrow>
                    Inr (f0\<lparr>runner := (runner f0)
                          \<lparr>initial_pc := Some (IntV a), memory := m,
                           initial_fp := Some (reloc_add base (int (length (stack f0)))),
                           initial_ap := Some (reloc_add base (int (length (stack f0)))),
                           final_pc := Some (end_ptr f0),
                           vm := Some \<lparr> pc = IntV a,
                                        ap = reloc_add base (int (length (stack f0))),
                                        fp = reloc_add base (int (length (stack f0))),
                                        current_step = 0,
                                        hint_locals = [''program_input'' \<mapsto>
                                                        py_or program_input (PyDict [])] \<rparr>\<rparr>\<rparr>))))"
  by (simp add: initialize_def get_by_full_name_def initialize_state_def initialize_vm_def
      Let_def split: option.splits sum.splits)

lemma prepare_Inr:
  assumes "prepare rt prog entrypoint program_input = Inr f"
  shows "\<exists>f0. build_frame rt prog = Inr f0 \<and>
           initialize prog entrypoint program_input f0 = Inr f \<and>
           stack f = stack f0 \<and> return_fp f = return_fp f0 \<and> end_ptr f = end_ptr f0"
  using assms
  by (auto simp: prepare_def initialize_cases split: sum.splits option.splits)

lemma finish_Inr:
  assumes "finish rt g = Inr (f, out)"
  shows "\<exists>v n. vm (runner g) = Some v \<and>
           trace_padding rt ((runner g)\<lparr>original_steps := Some (current_step v)\<rparr>) = Inr n \<and>
           f = g\<lparr>runner := (runner g)\<lparr>original_steps := Some (current_step v),
                                       vm := Some (v\<lparr>current_step := n\<rparr>),
                                       run_ended := True\<rparr>\<rparr> \<and>
           out = render_output rt (runner f)"
  using assms
  by (auto simp: finish_def end_run_def print_output_def Let_def
      split: option.splits sum.splits)

lemma run_program_entrypoint_Inr:
  assumes "run_program_entrypoint rt prog entrypoint program_input (Inr (f, out))"
  shows "\<exists>f0 r. prepare rt prog entrypoint program_input = Inr f0 \<and>
           run_until_pc rt (RelV (end_ptr f0)) (runner f0) (Inr r) \<and>
           finish rt (f0\<lparr>runner := r\<rparr>) = Inr (f, out)"
  using assms by (cases rule: run_program_entrypoint.cases) auto

lemma run_program_entrypoint_setup_failed:
  assumes "prepare rt prog entrypoint program_input = Inl x"
  shows "run_program_entrypoint rt prog entrypoint program_input res \<longleftrightarrow> res = Inl x"
proof
  assume "run_program_entrypoint rt prog entrypoint program_input res"
  then show "res = Inl x"
    using assms by (cases rule: run_program_entrypoint.cases) simp_all
next
  assume "res = Inl x"
  with assms show "run_program_entrypoint rt prog entrypoint program_input res"
    by (simp add: run_program_entrypoint.setup_failed)
qed

section \<open>The worked example, step by step\<close>

lemma example_build_frame:
  "build_frame example_runtime example_program = Inr example_built"
  by (simp add: build_frame_def example_runtime_def example_program_def Let_def
      CairoRunner_def initialize_segments_def segments_add_def builtin_contribution_def
      example_frame_def example_built_def numeral_3_eq_3)

lemma example_prepare:
  "prepare example_runtime example_program ''main'' PyNone = Inr example_frame"
  by (simp add: prepare_def initialize_cases build_frame_def example_runtime_def
      example_program_def Let_def CairoRunner_def initialize_segments_def segments_add_def
      builtin_contribution_def py_or_def example_frame_def numeral_3_eq_3 numeral_2_eq_2)

lemma example_step:
  "vm_step example_runtime (runner example_frame) = Inr example_reached"
  by (simp add: example_runtime_def ret_step_def example_frame_def example_reached_def)

lemma example_drive:
  "run_until_pc example_runtime (RelV (end_ptr example_frame)) (runner example_frame)
     (Inr example_reached)"
proof (rule run_until_pc.step)
  show "vm (runner example_frame) =
          Some \<lparr> pc = IntV 0, ap = RelocatableValue 0 3, fp = RelocatableValue 0 3,
                 current_step = 0, hint_locals = [''program_input'' \<mapsto> PyDict []] \<rparr>"
    by (simp add: example_frame_def)
  show "pc \<lparr> pc = IntV 0, ap = RelocatableValue 0 3, fp = RelocatableValue 0 3,
             current_step = 0, hint_locals = [''program_input'' \<mapsto> PyDict []] \<rparr>
          \<noteq> RelV (end_ptr example_frame)"
    by simp
  show "vm_step example_runtime (runner example_frame) = Inr example_reached"
    by (rule example_step)
  show "run_until_pc example_runtime (RelV (end_ptr example_frame)) example_reached
          (Inr example_reached)"
    by (rule run_until_pc.reached [where v = "the (vm example_reached)"])
       (simp_all add: example_reached_def example_frame_def)
qed

lemma example_finish:
  "finish example_runtime (example_frame\<lparr>runner := example_reached\<rparr>) =
     Inr (example_final, '''')"
  by (simp add: finish_def end_run_def print_output_def example_runtime_def
      example_reached_def example_final_def Let_def)

lemma example_run:
  "run_program_entrypoint example_runtime example_program ''main'' PyNone
     (Inr (example_final, ''''))"
  using run_program_entrypoint.run_done [OF example_prepare example_drive]
  by (simp add: example_finish)

section \<open>The claims about \<^verbatim>\<open>run_program_entrypoint\<close>\<close>

text \<open>
  C1: whenever the stack is built, it is the concatenation of one contribution per
  declared builtin, in declaration order, followed by the return-frame-pointer word and
  then the end-sentinel word; its length is the sum of the contributions' lengths plus 2.
\<close>

theorem stack_layout:
  assumes "build_frame rt prog = Inr f"
  shows "\<exists>cs. map (builtin_contribution (runner f)) (builtins prog) = map Inr cs \<and>
              stack f = concat cs @ [RelV (return_fp f), RelV (end_ptr f)] \<and>
              length (stack f) = sum_list (map length cs) + 2"
proof -
  let ?r1 = "initialize_segments (CairoRunner rt prog ''small'' Map.empty False False)"
  from build_frame_Inr [OF assms] obtain st0 where
    loop: "builtins_stack ?r1 (builtins prog) [] = Inr st0" and
    st: "stack f = st0 @ [RelV (return_fp f), RelV (end_ptr f)]" and
    r: "runner f = ?r1\<lparr>segments := 3\<rparr>"
    by blast
  from builtins_stack_Inr [OF loop] obtain cs where
    cs: "map (builtin_contribution ?r1) (builtins prog) = map Inr cs" "st0 = concat cs"
    by auto
  have "builtin_contribution (runner f) = builtin_contribution ?r1"
    by (rule builtin_contribution_cong) (simp_all add: r)
  with cs st have "map (builtin_contribution (runner f)) (builtins prog) = map Inr cs \<and>
      stack f = concat cs @ [RelV (return_fp f), RelV (end_ptr f)] \<and>
      length (stack f) = sum_list (map length cs) + 2"
    by (simp add: length_concat)
  then show ?thesis by blast
qed

theorem stack_layout_witness:
  "build_frame example_runtime example_program = Inr example_built \<and>
   (\<exists>cs. map (builtin_contribution (runner example_built)) (builtins example_program) = map Inr cs \<and>
      stack example_built = concat cs @ [RelV (return_fp example_built), RelV (end_ptr example_built)] \<and>
      length (stack example_built) = sum_list (map length cs) + 2)"
  using stack_layout [OF example_build_frame] example_build_frame by simp

text \<open>
  C2: when the stack is built and the entry point resolves, the initialisation succeeds;
  the initial program counter is the resolved code address, and the initial frame
  pointer and allocation pointer are both the execution base plus the length of the
  stack. The registers of the VM start at these values.
\<close>

theorem initial_registers:
  assumes "build_frame rt prog = Inr f0"
    and "identifiers prog [''__main__'', entrypoint] = Some a"
  shows "\<exists>f v base. prepare rt prog entrypoint program_input = Inr f \<and>
           stack f = stack f0 \<and>
           execution_base (runner f) = Some base \<and>
           initial_pc (runner f) = Some (IntV a) \<and>
           initial_fp (runner f) = Some (reloc_add base (int (length (stack f)))) \<and>
           initial_ap (runner f) = Some (reloc_add base (int (length (stack f)))) \<and>
           vm (runner f) = Some v \<and> pc v = IntV a \<and>
           fp v = reloc_add base (int (length (stack f))) \<and>
           ap v = reloc_add base (int (length (stack f)))"
proof -
  have base: "execution_base (runner f0) = Some (RelocatableValue 0 0)"
    and mem: "memory (runner f0) = Map.empty"
    using build_frame_fresh [OF assms(1)] by simp_all
  obtain m where m: "load_data (memory (runner f0)) (RelocatableValue 0 0) (stack f0) = Inr m"
    using load_data_fresh [of "memory (runner f0)" "RelocatableValue 0 0" "stack f0"] mem
    by auto
  show ?thesis
    by (simp add: prepare_def assms initialize_cases base m)
qed

theorem initial_registers_witness:
  "build_frame example_runtime example_program = Inr example_built \<and>
   identifiers example_program [''__main__'', ''main''] = Some 0 \<and>
   (\<exists>f v base. prepare example_runtime example_program ''main'' PyNone = Inr f \<and>
      stack f = stack example_built \<and>
      execution_base (runner f) = Some base \<and>
      initial_pc (runner f) = Some (IntV 0) \<and>
      initial_fp (runner f) = Some (reloc_add base (int (length (stack f)))) \<and>
      initial_ap (runner f) = Some (reloc_add base (int (length (stack f)))) \<and>
      vm (runner f) = Some v \<and> pc v = IntV 0 \<and>
      fp v = reloc_add base (int (length (stack f))) \<and>
      ap v = reloc_add base (int (length (stack f))))"
proof -
  have ident: "identifiers example_program [''__main__'', ''main''] = Some 0"
    by (simp add: example_program_def)
  show ?thesis
    using initial_registers [OF example_build_frame ident, of PyNone] example_build_frame ident
    by simp
qed

text \<open>
  C3: the last word of the stack that is built is the end sentinel's address, and a
  call that completes ends with that stack and with the program counter at the end
  sentinel.
\<close>

theorem end_sentinel:
  "(build_frame rt prog = Inr f0 \<longrightarrow> last (stack f0) = RelV (end_ptr f0)) \<and>
   (run_program_entrypoint rt prog entrypoint program_input (Inr (f, out)) \<longrightarrow>
      last (stack f) = RelV (end_ptr f) \<and>
      (\<exists>v. vm (runner f) = Some v \<and> pc v = RelV (end_ptr f)))"
proof (intro conjI impI)
  assume "build_frame rt prog = Inr f0"
  from build_frame_Inr [OF this] show "last (stack f0) = RelV (end_ptr f0)"
    by auto
next
  assume run: "run_program_entrypoint rt prog entrypoint program_input (Inr (f, out))"
  from run_program_entrypoint_Inr [OF run] obtain f1 r where
    prep: "prepare rt prog entrypoint program_input = Inr f1" and
    drive: "run_until_pc rt (RelV (end_ptr f1)) (runner f1) (Inr r)" and
    fin: "finish rt (f1\<lparr>runner := r\<rparr>) = Inr (f, out)"
    by blast
  from prepare_Inr [OF prep] obtain f2 where
    built: "build_frame rt prog = Inr f2" and same: "stack f1 = stack f2" "end_ptr f1 = end_ptr f2"
    by blast
  from build_frame_Inr [OF built] have "last (stack f2) = RelV (end_ptr f2)"
    by auto
  with same have l1: "last (stack f1) = RelV (end_ptr f1)" by simp
  from run_until_pc_reached [OF drive refl] obtain v where
    v: "vm r = Some v" "pc v = RelV (end_ptr f1)" by blast
  from finish_Inr [OF fin] v l1
  show "last (stack f) = RelV (end_ptr f)"
    by auto
  from finish_Inr [OF fin] v
  show "\<exists>v. vm (runner f) = Some v \<and> pc v = RelV (end_ptr f)"
    by auto
qed

theorem end_sentinel_witness:
  "build_frame example_runtime example_program = Inr example_built \<and>
   last (stack example_built) = RelV (end_ptr example_built) \<and>
   run_program_entrypoint example_runtime example_program ''main'' PyNone
     (Inr (example_final, '''')) \<and>
   last (stack example_final) = RelV (end_ptr example_final) \<and>
   (\<exists>v. vm (runner example_final) = Some v \<and> pc v = RelV (end_ptr example_final))"
  using end_sentinel [of example_runtime example_program example_built "''main''" PyNone
      example_final "''''"] example_build_frame example_run
  by simp

text \<open>
  C4: the harness builds its runner with "allow missing builtins" false; when a
  declared builtin has no runner, the call fails with the assertion error "Missing
  builtin." while the memory is still empty and no VM exists, and that failure is the
  only outcome of the call.
\<close>

theorem missing_builtin_fails:
  assumes "b \<in> set (builtins prog)"
    and "layout_builtin_runners rt ''small'' prog (b @ ''_builtin'') = None"
  shows "\<exists>r. prepare rt prog entrypoint program_input =
                Inl (AssertionError ''Missing builtin.'', r) \<and>
             \<not> allow_missing_builtins r \<and>
             memory r = Map.empty \<and> vm r = None \<and> original_steps r = None \<and>
             (\<forall>res. run_program_entrypoint rt prog entrypoint program_input res \<longleftrightarrow>
                    res = Inl (AssertionError ''Missing builtin.'', r))"
proof -
  let ?r1 = "initialize_segments (CairoRunner rt prog ''small'' Map.empty False False)"
  have "builtin_contribution ?r1 b = Inl (AssertionError ''Missing builtin.'')"
    using assms(2) by (simp add: builtin_contribution_def fresh_runner_fields)
  from builtins_stack_missing [OF assms(1) this]
  have "builtins_stack ?r1 (builtins prog) [] = Inl (AssertionError ''Missing builtin.'')" .
  then have prep: "prepare rt prog entrypoint program_input =
      Inl (AssertionError ''Missing builtin.'', ?r1)"
    by (simp add: prepare_def build_frame_def Let_def fresh_runner_fields)
  show ?thesis
    using prep run_program_entrypoint_setup_failed [OF prep]
    by (simp add: fresh_runner_fields)
qed

theorem missing_builtin_fails_witness:
  "''pedersen'' \<in> set (builtins no_runner_program) \<and>
   layout_builtin_runners example_runtime ''small'' no_runner_program
     (''pedersen'' @ ''_builtin'') = None \<and>
   (\<exists>r. prepare example_runtime no_runner_program ''main'' PyNone =
           Inl (AssertionError ''Missing builtin.'', r) \<and>
        \<not> allow_missing_builtins r \<and>
        memory r = Map.empty \<and> vm r = None \<and> original_steps r = None \<and>
        (\<forall>res. run_program_entrypoint example_runtime no_runner_program ''main'' PyNone res \<longleftrightarrow>
               res = Inl (AssertionError ''Missing builtin.'', r)))"
proof -
  have h1: "''pedersen'' \<in> set (builtins no_runner_program)"
    by (simp add: no_runner_program_def)
  have h2: "layout_builtin_runners example_runtime ''small'' no_runner_program
     (''pedersen'' @ ''_builtin'') = None"
    by (simp add: example_runtime_def)
  from missing_builtin_fails [OF h1 h2, of "''main''" PyNone] h1 h2
  show ?thesis by blast
qed




text \<open>
  C6: on a runner that allows missing builtins, a declared builtin without a runner
  contributes exactly the one word 0, and the loop returns the concatenation of the
  contributions, that word standing for each builtin without a runner.
\<close>

theorem missing_builtin_placeholder:
  assumes "allow_missing_builtins r"
  shows "(builtin_runners r (b @ ''_builtin'') = None \<longrightarrow>
            builtin_contribution r b = Inr [IntV 0]) \<and>
         builtins_stack r bs [] =
           Inr (concat (map (\<lambda>b. case builtin_runners r (b @ ''_builtin'') of
                                    None \<Rightarrow> [IntV 0]
                                  | Some br \<Rightarrow> initial_stack br) bs))"
proof -
  let ?c = "\<lambda>b. case builtin_runners r (b @ ''_builtin'') of
                  None \<Rightarrow> [IntV 0] | Some br \<Rightarrow> initial_stack br"
  have "builtin_contribution r b' = Inr (?c b')" for b'
    using assms by (simp add: builtin_contribution_def split: option.splits)
  then have "map (builtin_contribution r) bs = map Inr (map ?c bs)"
    by simp
  from builtins_stack_all_Inr [OF this, of "[]"] assms show ?thesis
    by (simp add: builtin_contribution_def)
qed

theorem missing_builtin_placeholder_witness:
  "allow_missing_builtins
     (CairoRunner example_runtime no_runner_program ''small'' Map.empty False True) \<and>
   builtin_runners (CairoRunner example_runtime no_runner_program ''small'' Map.empty False True)
     (''pedersen'' @ ''_builtin'') = None \<and>
   builtin_contribution
     (CairoRunner example_runtime no_runner_program ''small'' Map.empty False True)
     ''pedersen'' = Inr [IntV 0] \<and>
   builtins_stack (CairoRunner example_runtime no_runner_program ''small'' Map.empty False True)
     [''range_check'', ''pedersen''] [] = Inr [IntV 1000, IntV 0]"
proof -
  let ?r = "CairoRunner example_runtime no_runner_program ''small'' Map.empty False True"
  have h: "allow_missing_builtins ?r"
    by (simp add: CairoRunner_def)
  have n: "builtin_runners ?r (''pedersen'' @ ''_builtin'') = None"
    by (simp add: CairoRunner_def example_runtime_def)
  from missing_builtin_placeholder [OF h, of "''pedersen''" "[''range_check'', ''pedersen'']"] h n
  show ?thesis
    by (simp add: CairoRunner_def example_runtime_def)
qed

text \<open>
  C7: in a call that completes, the step count stored in \<open>original_steps\<close> is the
  count of the VM when the run reached the end sentinel, and \<^verbatim>\<open>end_run\<close> works on a
  runner that holds it already; \<^verbatim>\<open>end_run\<close> with trace padding disabled does not
  consult the padding at all and only marks the run as ended.
\<close>

theorem steps_recorded_before_end_run:
  "(run_program_entrypoint rt prog entrypoint program_input (Inr (f, out)) \<longrightarrow>
      (\<exists>f0 r v. prepare rt prog entrypoint program_input = Inr f0 \<and>
         run_until_pc rt (RelV (end_ptr f0)) (runner f0) (Inr r) \<and>
         vm r = Some v \<and> pc v = RelV (end_ptr f0) \<and>
         original_steps (runner f) = Some (current_step v) \<and>
         end_run rt False (r\<lparr>original_steps := Some (current_step v)\<rparr>) = Inr (runner f))) \<and>
   (vm r' \<noteq> None \<longrightarrow> end_run rt True r' = Inr (r'\<lparr>run_ended := True\<rparr>))"
proof (intro conjI impI)
  assume run: "run_program_entrypoint rt prog entrypoint program_input (Inr (f, out))"
  from run_program_entrypoint_Inr [OF run] obtain f1 r where
    prep: "prepare rt prog entrypoint program_input = Inr f1" and
    drive: "run_until_pc rt (RelV (end_ptr f1)) (runner f1) (Inr r)" and
    fin: "finish rt (f1\<lparr>runner := r\<rparr>) = Inr (f, out)"
    by blast
  from run_until_pc_reached [OF drive refl] obtain v where
    v: "vm r = Some v" "pc v = RelV (end_ptr f1)" by blast
  from fin v have "original_steps (runner f) = Some (current_step v) \<and>
      end_run rt False (r\<lparr>original_steps := Some (current_step v)\<rparr>) = Inr (runner f)"
    by (auto simp: finish_def end_run_def Let_def split: sum.splits)
  with prep drive v
  show "\<exists>f0 r v. prepare rt prog entrypoint program_input = Inr f0 \<and>
         run_until_pc rt (RelV (end_ptr f0)) (runner f0) (Inr r) \<and>
         vm r = Some v \<and> pc v = RelV (end_ptr f0) \<and>
         original_steps (runner f) = Some (current_step v) \<and>
         end_run rt False (r\<lparr>original_steps := Some (current_step v)\<rparr>) = Inr (runner f)"
    by blast
next
  assume "vm r' \<noteq> None"
  then show "end_run rt True r' = Inr (r'\<lparr>run_ended := True\<rparr>)"
    by (auto simp: end_run_def)
qed

theorem steps_recorded_before_end_run_witness:
  "run_program_entrypoint example_runtime example_program ''main'' PyNone
     (Inr (example_final, '''')) \<and>
   (\<exists>f0 r v. prepare example_runtime example_program ''main'' PyNone = Inr f0 \<and>
      run_until_pc example_runtime (RelV (end_ptr f0)) (runner f0) (Inr r) \<and>
      vm r = Some v \<and> pc v = RelV (end_ptr f0) \<and>
      original_steps (runner example_final) = Some (current_step v) \<and>
      end_run example_runtime False (r\<lparr>original_steps := Some (current_step v)\<rparr>) =
        Inr (runner example_final)) \<and>
   original_steps (runner example_final) = Some 1 \<and>
   vm example_reached \<noteq> None \<and>
   end_run example_runtime True example_reached = Inr (example_reached\<lparr>run_ended := True\<rparr>)"
proof -
  have v: "vm example_reached \<noteq> None"
    by (simp add: example_reached_def)
  have o: "original_steps (runner example_final) = Some 1"
    by (simp add: example_final_def)
  from steps_recorded_before_end_run [of example_runtime example_program "''main''" PyNone
      example_final "''''" example_reached] example_run v o
  show ?thesis by blast
qed

text \<open>
  C9: once the VM is initialised, the hint context binds exactly the key
  \<^verbatim>\<open>program_input\<close>: to the empty dict when the given value is falsy (also when it is
  omitted), to the given value unchanged when it is truthy.
\<close>

theorem program_input_binding:
  assumes "prepare rt prog entrypoint program_input = Inr f"
  shows "\<exists>v. vm (runner f) = Some v \<and>
           hint_locals v =
             [''program_input'' \<mapsto> (if truthy program_input then program_input else PyDict [])]"
  using assms
  by (auto simp: prepare_def initialize_cases py_or_def split: sum.splits option.splits)

theorem program_input_binding_witness:
  "prepare example_runtime example_program ''main'' PyNone = Inr example_frame \<and>
   \<not> truthy PyNone \<and> \<not> truthy (PyDict []) \<and> \<not> truthy (PyInt 0) \<and> \<not> truthy (PyStr '''') \<and>
   (\<exists>v. vm (runner example_frame) = Some v \<and>
      hint_locals v = [''program_input'' \<mapsto> PyDict []])"
  using program_input_binding [OF example_prepare] example_prepare
  by simp

section \<open>The claim about the statistics script\<close>

lemma drop_duplicates_without_key:
  assumes "1 < length (filter (\<lambda>r. row_key r = k) rows)"
  shows "drop_duplicates (filter (\<lambda>r. row_key r \<noteq> k) rows) = drop_duplicates rows"
proof -
  have "(row_key r \<noteq> k \<and>
          length (filter (\<lambda>r'. row_key r' = row_key r) (filter (\<lambda>r. row_key r \<noteq> k) rows)) = 1)
        = (length (filter (\<lambda>r'. row_key r' = row_key r) rows) = 1)" for r
  proof (cases "row_key r = k")
    case True
    with assms show ?thesis by simp
  next
    case False
    then have "filter (\<lambda>r'. row_key r' = row_key r) (filter (\<lambda>r. row_key r \<noteq> k) rows)
        = filter (\<lambda>r'. row_key r' = row_key r) rows"
      by (auto simp: filter_filter intro: filter_cong)
    with False show ?thesis by simp
  qed
  then show ?thesis
    by (simp add: drop_duplicates_def filter_filter conj_commute)
qed

lemma example_concat:
  "length (filter (\<lambda>r. row_key r = (''main'', ''test_a''))
     (concat (resources example_artifacts example_local))) = 2"
  by (simp add: resources_def example_artifacts_def example_local_def
      assign_head_branch_def row_key_def)

lemma example_summary:
  "average_summary (all_resources example_artifacts example_local) ''main'' = Some [5, 2]"
  "average_summary (all_resources example_artifacts example_local) ''local'' =
     Some [15 / 2, 7 / 2]"
  by (simp_all add: all_resources_def resources_def example_artifacts_def
      example_local_def assign_head_branch_def drop_duplicates_def row_key_def
      average_summary_def mean_def round2_def round_half_even_def Let_def)

text \<open>
  C10: when a pair of branch and test occurs more than once in the concatenated data,
  no row with that pair is left in \<^verbatim>\<open>all_resources\<close>, and the summary is the one
  computed from the data without any row of that pair.
\<close>

theorem duplicated_rows_dropped:
  assumes "1 < length (filter (\<lambda>r. row_key r = k) (concat (resources artifacts local_csv)))"
  shows "(\<forall>r\<in>set (all_resources artifacts local_csv). row_key r \<noteq> k) \<and>
         set (all_resources artifacts local_csv) \<subseteq> set (concat (resources artifacts local_csv)) \<and>
         main_summary artifacts local_csv =
           Inr (average_summary (drop_duplicates
             (filter (\<lambda>r. row_key r \<noteq> k) (concat (resources artifacts local_csv)))))"
proof -
  have "\<forall>r\<in>set (all_resources artifacts local_csv). row_key r \<noteq> k"
    using assms by (auto simp: all_resources_def drop_duplicates_def)
  moreover have "set (all_resources artifacts local_csv)
      \<subseteq> set (concat (resources artifacts local_csv))"
    by (auto simp: all_resources_def drop_duplicates_def)
  moreover have "resources artifacts local_csv \<noteq> []"
    using assms by auto
  then have "main_summary artifacts local_csv =
           Inr (average_summary (drop_duplicates
             (filter (\<lambda>r. row_key r \<noteq> k) (concat (resources artifacts local_csv)))))"
    by (simp add: main_summary_def all_resources_def drop_duplicates_without_key [OF assms])
  ultimately show ?thesis by blast
qed

theorem duplicated_rows_dropped_witness:
  "1 < length (filter (\<lambda>r. row_key r = (''main'', ''test_a''))
         (concat (resources example_artifacts example_local))) \<and>
   (''main'', ''test_a'') \<notin> row_key ` set (all_resources example_artifacts example_local) \<and>
   main_summary example_artifacts example_local =
     Inr (average_summary (drop_duplicates
       (filter (\<lambda>r. row_key r \<noteq> (''main'', ''test_a''))
          (concat (resources example_artifacts example_local))))) \<and>
   average_summary (all_resources example_artifacts example_local) ''main'' = Some [5, 2]"
proof -
  have h: "1 < length (filter (\<lambda>r. row_key r = (''main'', ''test_a''))
         (concat (resources example_artifacts example_local)))"
    by (simp add: example_concat)
  from duplicated_rows_dropped [OF h] h example_summary(1)
  show ?thesis by auto
qed

end
